theory Spec2Isabelle
  imports Main
begin

section \<open>Go strings\<close>

text \<open>
  A Go string is a byte sequence that the program reads as UTF-8: \<open>for _, r := range s\<close>
  walks it rune by rune, \<open>strings.Builder.WriteRune\<close> appends one rune, and every string
  of the content pipeline comes out of \<open>json.Unmarshal\<close>, which yields well-formed UTF-8
  only. A string is therefore modelled as the list of its runes (Unicode code points), and
  the byte-level operations of the source are expressed on that list: \<open>len\<close> adds up the
  UTF-8 widths, and a byte compared with an ASCII character is the first (or last) rune
  compared with it, since no byte of a multi-byte sequence is below 0x80.
\<close>

type_synonym rune = nat
type_synonym gostring = "rune list"

text \<open>The Go string holding an ASCII text.\<close>

definition str :: "string \<Rightarrow> gostring" where
  "str s = map of_char s"

text \<open>
  \<open>utf8.ValidRune\<close>: the code points that UTF-8 encodes. The runes of a Go string are
  valid, whatever its bytes (\<open>range\<close> reads U+FFFD for a byte that is not part of an
  encoding): \<open>wellformed\<close> says so of a rune list, and is assumed where a property depends
  on it.
\<close>

definition ValidRune :: "rune \<Rightarrow> bool" where
  "ValidRune r = (r < 0xD800 \<or> (0xDFFF < r \<and> r \<le> 0x10FFFF))"

definition wellformed :: "gostring \<Rightarrow> bool" where
  "wellformed s = list_all ValidRune s"

text \<open>\<open>utf8.RuneLen\<close> of a valid rune, and the builtin \<open>len\<close> of a string: its length in bytes.\<close>

definition RuneLen :: "rune \<Rightarrow> nat" where
  "RuneLen r = (if r < 0x80 then 1 else if r < 0x800 then 2 else if r < 0x10000 then 3 else 4)"

definition len :: "gostring \<Rightarrow> nat" where
  "len s = sum_list (map RuneLen s)"

text \<open>\<open>utf8.RuneCountInString\<close>: the number of characters of a string.\<close>

definition RuneCountInString :: "gostring \<Rightarrow> nat" where
  "RuneCountInString s = length s"

subsection \<open>Package strings\<close>

definition HasPrefix :: "gostring \<Rightarrow> gostring \<Rightarrow> bool" where
  "HasPrefix s p = (take (length p) s = p)"


fun Contains :: "gostring \<Rightarrow> gostring \<Rightarrow> bool" where
  "Contains [] sub = (sub = [])"
| "Contains (c # cs) sub = (HasPrefix (c # cs) sub \<or> Contains cs sub)"

text \<open>
  \<open>strings.ReplaceAll\<close>: the non-overlapping occurrences of \<open>old\<close> are replaced from left
  to right; an empty \<open>old\<close> matches before every rune and at the end.
\<close>

fun ReplaceAll :: "gostring \<Rightarrow> gostring \<Rightarrow> gostring \<Rightarrow> gostring" where
  "ReplaceAll [] old new = (if old = [] then new else [])"
| "ReplaceAll (c # cs) [] new = new @ c # ReplaceAll cs [] new"
| "ReplaceAll (c # cs) (k # ks) new =
     (if HasPrefix (c # cs) (k # ks)
      then new @ ReplaceAll (drop (length ks) cs) (k # ks) new
      else c # ReplaceAll cs (k # ks) new)"

text \<open>\<open>unicode.IsSpace\<close>: the Latin-1 cases and the White_Space table.\<close>

definition IsSpace :: "rune \<Rightarrow> bool" where
  "IsSpace r =
     (if r \<le> 0xFF
      then r = 0x09 \<or> r = 0x0A \<or> r = 0x0B \<or> r = 0x0C \<or> r = 0x0D \<or> r = 0x20
         \<or> r = 0x85 \<or> r = 0xA0
      else r = 0x1680 \<or> (0x2000 \<le> r \<and> r \<le> 0x200A) \<or> r = 0x2028 \<or> r = 0x2029
         \<or> r = 0x202F \<or> r = 0x205F \<or> r = 0x3000)"

text \<open>\<open>strings.TrimSpace\<close>: all leading and trailing white space removed.\<close>

definition TrimSpace :: "gostring \<Rightarrow> gostring" where
  "TrimSpace s = rev (dropWhile IsSpace (rev (dropWhile IsSpace s)))"

subsection \<open>strconv.Quote\<close>

text \<open>
  \<open>strconv.IsPrint\<close> decides Latin-1 by two ranges and every other rune by the Unicode
  tables of the Go release; the tables are the parameter \<open>printable\<close>.
\<close>

definition IsPrint :: "(rune \<Rightarrow> bool) \<Rightarrow> rune \<Rightarrow> bool" where
  "IsPrint printable r =
     (if r \<le> 0xFF then (0x20 \<le> r \<and> r \<le> 0x7E) \<or> (0xA1 \<le> r \<and> r \<noteq> 0xAD)
      else printable r)"

definition lowerhex :: gostring where
  "lowerhex = str ''0123456789abcdef''"

text \<open>The \<open>n\<close> hexadecimal digits of \<open>r\<close>, the most significant first.\<close>

fun hexdigits :: "nat \<Rightarrow> rune \<Rightarrow> gostring" where
  "hexdigits 0 r = []"
| "hexdigits (Suc n) r = lowerhex ! ((r div 16 ^ n) mod 16) # hexdigits n r"

text \<open>\<open>appendEscapedRune\<close> as \<open>Quote\<close> calls it: the quote is \<open>"\<close>, neither ASCII-only nor graphic-only.\<close>

definition appendEscapedRune :: "(rune \<Rightarrow> bool) \<Rightarrow> rune \<Rightarrow> gostring" where
  "appendEscapedRune printable r =
     (if r = 0x22 \<or> r = 0x5C then [0x5C, r]
      else if IsPrint printable r then [r]
      else if r = 0x07 then 0x5C # str ''a''
      else if r = 0x08 then 0x5C # str ''b''
      else if r = 0x0C then 0x5C # str ''f''
      else if r = 0x0A then 0x5C # str ''n''
      else if r = 0x0D then 0x5C # str ''r''
      else if r = 0x09 then 0x5C # str ''t''
      else if r = 0x0B then 0x5C # str ''v''
      else if r < 0x20 \<or> r = 0x7F then 0x5C # str ''x'' @ hexdigits 2 r
      else if \<not> ValidRune r then 0x5C # str ''u'' @ hexdigits 4 0xFFFD
      else if r < 0x10000 then 0x5C # str ''u'' @ hexdigits 4 r
      else 0x5C # str ''U'' @ hexdigits 8 r)"

definition Quote :: "(rune \<Rightarrow> bool) \<Rightarrow> gostring \<Rightarrow> gostring" where
  "Quote printable s = 0x22 # concat (map (appendEscapedRune printable) s) @ [0x22]"

subsection \<open>encoding/json: string literals\<close>

definition hexval :: "rune \<Rightarrow> nat option" where
  "hexval c =
     (if 0x30 \<le> c \<and> c \<le> 0x39 then Some (c - 0x30)
      else if 0x61 \<le> c \<and> c \<le> 0x66 then Some (c - 0x61 + 10)
      else if 0x41 \<le> c \<and> c \<le> 0x46 then Some (c - 0x41 + 10)
      else None)"

text \<open>\<open>getu4\<close>: the value of a \<open>\uXXXX\<close> escape at the head of the input.\<close>

fun getu4 :: "gostring \<Rightarrow> rune option" where
  "getu4 (b # u # h1 # h2 # h3 # h4 # rest) =
     (if b = 0x5C \<and> u = 0x75
      then (case (hexval h1, hexval h2, hexval h3, hexval h4) of
              (Some d1, Some d2, Some d3, Some d4) \<Rightarrow> Some (((d1 * 16 + d2) * 16 + d3) * 16 + d4)
            | _ \<Rightarrow> None)
      else None)"
| "getu4 s = None"

definition IsSurrogate :: "rune \<Rightarrow> bool" where
  "IsSurrogate r = (0xD800 \<le> r \<and> r < 0xE000)"

text \<open>\<open>utf16.DecodeRune\<close> of a surrogate and of what \<open>getu4\<close> read after it.\<close>

definition DecodeRune16 :: "rune \<Rightarrow> rune option \<Rightarrow> rune" where
  "DecodeRune16 r1 r2 =
     (case r2 of
        Some r2 \<Rightarrow>
          if 0xD800 \<le> r1 \<and> r1 < 0xDC00 \<and> 0xDC00 \<le> r2 \<and> r2 < 0xE000
          then (r1 - 0xD800) * 0x400 + (r2 - 0xDC00) + 0x10000
          else 0xFFFD
      | None \<Rightarrow> 0xFFFD)"

text \<open>
  The decoder's reading of a string literal, from after its opening quote: the escapes the
  scanner accepts are \<open>\"\<close>, \<open>\\\<close>, \<open>\/\<close>, \<open>\b\<close>, \<open>\f\<close>, \<open>\n\<close>, \<open>\r\<close>, \<open>\t\<close> and
  \<open>\uXXXX\<close>; a control character, any other escape and a literal that does not end at its
  closing quote are syntax errors (\<open>None\<close>); a rune that is not valid is replaced by U+FFFD.
\<close>

fun unquote :: "gostring \<Rightarrow> gostring option" where
  "unquote [] = None"
| "unquote (c # cs) =
     (if c = 0x22 then (if cs = [] then Some [] else None)
      else if c = 0x5C then
        (case cs of
           [] \<Rightarrow> None
         | e # es \<Rightarrow>
             if e = 0x22 \<or> e = 0x5C \<or> e = 0x2F then map_option ((#) e) (unquote es)
             else if e = 0x62 then map_option ((#) 0x08) (unquote es)
             else if e = 0x66 then map_option ((#) 0x0C) (unquote es)
             else if e = 0x6E then map_option ((#) 0x0A) (unquote es)
             else if e = 0x72 then map_option ((#) 0x0D) (unquote es)
             else if e = 0x74 then map_option ((#) 0x09) (unquote es)
             else if e = 0x75 then
               (case getu4 (c # cs) of
                  None \<Rightarrow> None
                | Some rr \<Rightarrow>
                    if IsSurrogate rr \<and> DecodeRune16 rr (getu4 (drop 4 es)) \<noteq> 0xFFFD
                    then map_option ((#) (DecodeRune16 rr (getu4 (drop 4 es))))
                           (unquote (drop 10 es))
                    else map_option ((#) (if IsSurrogate rr then 0xFFFD else rr))
                           (unquote (drop 4 es)))
             else None)
      else if c < 0x20 then None
      else map_option ((#) (if ValidRune c then c else 0xFFFD)) (unquote cs))"

datatype json_error = SyntaxError

text \<open>
  \<open>json.Unmarshal\<close> into \<open>struct { Content string `json:"content"` }\<close>, for the documents
  \<open>unescapeUnicodeJSON\<close> builds, \<open>{"content": L}\<close>: the value of the string literal \<open>L\<close>,
  or a syntax error.
\<close>

definition unmarshalContent :: "gostring \<Rightarrow> json_error + gostring" where
  "unmarshalContent doc =
     (let key = str ''{\"content\": ''; lit = butlast (drop (length key) doc)
      in if HasPrefix doc key \<and> length key < length doc \<and> last doc = 0x7D
            \<and> HasPrefix lit [0x22]
         then (case unquote (tl lit) of None \<Rightarrow> Inl SyntaxError | Some v \<Rightarrow> Inr v)
         else Inl SyntaxError)"

section \<open>The text normalizer\<close>

subsection \<open>cleanupContent\<close>

definition unescapeUnicodeJSON ::
  "(rune \<Rightarrow> bool) \<Rightarrow> gostring \<Rightarrow> gostring \<times> json_error option" where
  "unescapeUnicodeJSON printable s =
     (let jsonStr = str ''{\"content\": '' @ Quote printable s @ str ''}''
      in case unmarshalContent jsonStr of
           Inl err \<Rightarrow> (s, Some err)
         | Inr content \<Rightarrow> (content, None))"

definition htmlReplacements :: "(gostring \<times> gostring) list" where
  "htmlReplacements =
     [(str ''&nbsp;'', str '' ''),
      (str ''&amp;'', str ''&''),
      (str ''&lt;'', str ''<''),
      (str ''&gt;'', str ''>''),
      (str ''&quot;'', str ''\"''),
      (str ''&#39;'', [0x27]),
      (str ''&apos;'', [0x27])]"

text \<open>
  \<open>htmlReplacements\<close> is a Go map, and \<open>range\<close> over a map yields its entries in an order
  that is not specified and changes from one run to the next: \<open>order\<close> is the order of
  this run, any arrangement of the seven entries.
\<close>

definition iteration :: "(gostring \<times> gostring) list \<Rightarrow> bool" where
  "iteration order = (distinct order \<and> set order = set htmlReplacements)"

definition cleanupContent ::
  "(rune \<Rightarrow> bool) \<Rightarrow> (gostring \<times> gostring) list \<Rightarrow> gostring \<Rightarrow> gostring" where
  "cleanupContent printable order content =
     (let content =
            (if len content > 2 \<and> hd content = 0x22 \<and> last content = 0x22
             then butlast (tl content) else content);
          content = ReplaceAll content [0x5C, 0x22] [0x22];
          content =
            (case unescapeUnicodeJSON printable content of
               (result, None) \<Rightarrow> result
             | (result, Some err) \<Rightarrow> content)
      in fold (\<lambda>(escaped, unescaped) content. ReplaceAll content escaped unescaped)
           order content)"

subsection \<open>stripHTMLTags\<close>

text \<open>
  The scan of \<open>stripHTMLTags\<close>: the runes still to read, the flag \<open>inTag\<close> and the
  builder \<open>result\<close>.
\<close>

fun scanTags :: "gostring \<Rightarrow> bool \<Rightarrow> gostring \<Rightarrow> gostring" where
  "scanTags [] inTag result = result"
| "scanTags (r # rs) inTag result =
     (if r = 0x3C then scanTags rs True result
      else if r = 0x3E then scanTags rs False (result @ [0x20])
      else if \<not> inTag then scanTags rs inTag (result @ [r])
      else scanTags rs inTag result)"

text \<open>The loop \<open>for strings.Contains(text, "  ") { text = strings.ReplaceAll(text, "  ", " ") }\<close>.\<close>

function collapseSpaces :: "gostring \<Rightarrow> gostring" where
  "collapseSpaces text =
     (if Contains text (str ''  '') then collapseSpaces (ReplaceAll text (str ''  '') (str '' ''))
      else text)"
  by pat_completeness auto

definition stripHTMLTags :: "gostring \<Rightarrow> gostring" where
  "stripHTMLTags html =
     (let text = scanTags html False [];
          text = ReplaceAll text (str ''&nbsp;'') (str '' '');
          text = ReplaceAll text [0x0A, 0x0A] [0x0A];
          text = collapseSpaces text
      in TrimSpace text)"

section \<open>The upstream and the clock\<close>

text \<open>
  An \<open>error\<close> is its message. Time is counted in nanoseconds, as \<open>time.Duration\<close> is.
\<close>

type_synonym error = gostring
type_synonym time = int

definition Minute :: int where
  "Minute = 60 * 1000000000"

definition Hour :: int where
  "Hour = 60 * Minute"

text \<open>
  What one POST to the GraphQL endpoint comes to, in the order the source finds out:
  \<open>client.Do\<close> fails; or there is a response with a status code, whose body
  \<open>io.ReadAll\<close> fails to read, or \<open>json.Unmarshal\<close> fails to parse, or which
  unmarshals to a value.
\<close>

datatype 'a reply =
    SendError error
  | ReadError nat error
  | ParseError nat error
  | Decoded nat 'a

fun StatusCode :: "'a reply \<Rightarrow> nat option" where
  "StatusCode (SendError err) = None"
| "StatusCode (ReadError code err) = Some code"
| "StatusCode (ParseError code err) = Some code"
| "StatusCode (Decoded code v) = Some code"

record MappingField =
  Key :: gostring
  Type :: gostring
  Value :: gostring

text \<open>\<open>PostResponse\<close>, its nested structs flattened: \<open>Data.Post.MappingFields\<close>, \<open>Data.Post.Title\<close>.\<close>

record PostResponse =
  Data_Post_MappingFields :: "MappingField list"
  Data_Post_Title :: gostring

text \<open>
  The world outside the process: the clock, the number of requests sent to the upstream so
  far, and the upstream itself, a black box that answers the \<open>n\<close>-th request after
  \<open>latency n\<close> nanoseconds: a token query with \<open>tokens n\<close> (the \<open>accessToken\<close> field of
  the answer, empty when absent), a post query with \<open>posts n token postID\<close>.
\<close>

record world =
  now :: time
  requests :: nat
  latency :: "nat \<Rightarrow> nat"
  tokens :: "nat \<Rightarrow> gostring reply"
  posts :: "nat \<Rightarrow> gostring \<Rightarrow> gostring \<Rightarrow> PostResponse reply"

definition elapse :: "world \<Rightarrow> world" where
  "elapse w = w\<lparr>now := now w + int (latency w (requests w)), requests := Suc (requests w)\<rparr>"

definition postTokenQuery :: "world \<Rightarrow> gostring reply \<times> world" where
  "postTokenQuery w = (tokens w (requests w), elapse w)"

definition postGetPost :: "gostring \<Rightarrow> gostring \<Rightarrow> world \<Rightarrow> PostResponse reply \<times> world" where
  "postGetPost token postID w = (posts w (requests w) token postID, elapse w)"

section \<open>The token manager\<close>

text \<open>
  The calls of one goroutine: the mutex is left out. \<open>json.Marshal\<close> of the constant query
  and \<open>http.NewRequest\<close> with a constant method and URL do not fail, and the log lines
  change nothing the program reads.
\<close>

record TokenManager =
  accessToken :: gostring
  expiry :: time
  networkDomain :: gostring

definition RefreshToken ::
  "TokenManager \<Rightarrow> world \<Rightarrow> error option \<times> TokenManager \<times> world" where
  "RefreshToken tm w =
     (case postTokenQuery w of
        (SendError err, w') \<Rightarrow>
          (Some (str ''error sending token request: '' @ err), tm, w')
      | (ReadError code err, w') \<Rightarrow>
          (Some (str ''error reading token response: '' @ err), tm, w')
      | (ParseError code err, w') \<Rightarrow>
          (Some (str ''error parsing token response: '' @ err), tm, w')
      | (Decoded code token, w') \<Rightarrow>
          if token = [] then (Some (str ''no token returned from API''), tm, w')
          else (None, tm\<lparr>accessToken := token, expiry := now w' + 24 * Hour\<rparr>, w'))"

text \<open>\<open>time.Now().Add(5*time.Minute).After(tm.expiry)\<close> is \<open>expiry tm < now w + 5 * Minute\<close>.\<close>

definition GetToken ::
  "TokenManager \<Rightarrow> world \<Rightarrow> (gostring \<times> error option) \<times> TokenManager \<times> world" where
  "GetToken tm w =
     (if accessToken tm = [] \<or> expiry tm < now w + 5 * Minute
      then (case RefreshToken tm w of
              (Some err, tm', w') \<Rightarrow> (([], Some err), tm', w')
            | (None, tm', w') \<Rightarrow> ((accessToken tm', None), tm', w'))
      else ((accessToken tm, None), tm, w))"

section \<open>The upstream client\<close>

text \<open>The loop over \<open>postResp.Data.Post.MappingFields\<close> that finds the content field.\<close>

fun contentField :: "MappingField list \<Rightarrow> gostring" where
  "contentField [] = []"
| "contentField (field # rest) =
     (if Key field = str ''content'' then Value field else contentField rest)"

text \<open>
  \<open>fetchContentFromBetterMode\<close> calls itself after a refresh, and nothing in it bounds
  the calls: the function is partial, and \<open>None\<close> is a call that does not return.
\<close>

partial_function (option) fetchContentFromBetterMode ::
  "gostring \<Rightarrow> TokenManager \<Rightarrow> world \<Rightarrow>
   ((gostring \<times> gostring \<times> error option) \<times> TokenManager \<times> world) option" where
  "fetchContentFromBetterMode postID tm w =
     (case GetToken tm w of
        ((token, Some err), tm1, w1) \<Rightarrow>
          Some (([], [], Some (str ''error getting access token: '' @ err)), tm1, w1)
      | ((token, None), tm1, w1) \<Rightarrow>
          (case postGetPost token postID w1 of
             (SendError err, w2) \<Rightarrow>
               Some (([], [], Some (str ''error sending request: '' @ err)), tm1, w2)
           | (resp, w2) \<Rightarrow>
               if StatusCode resp = Some 401
               then (case RefreshToken tm1 w2 of
                       (Some err, tm3, w3) \<Rightarrow>
                         Some (([], [], Some (str ''failed to refresh token: '' @ err)), tm3, w3)
                     | (None, tm3, w3) \<Rightarrow> fetchContentFromBetterMode postID tm3 w3)
               else (case resp of
                       ReadError code err \<Rightarrow>
                         Some (([], [], Some (str ''error reading response: '' @ err)), tm1, w2)
                     | ParseError code err \<Rightarrow>
                         Some (([], [], Some (str ''error parsing response: '' @ err)), tm1, w2)
                     | Decoded code postResp \<Rightarrow>
                         (let title = Data_Post_Title postResp;
                              content = contentField (Data_Post_MappingFields postResp)
                          in if content = []
                             then Some (([], title, Some (str ''content field not found'')),
                                        tm1, w2)
                             else Some ((content, title, None), tm1, w2)))))"

section \<open>The HTTP gateway\<close>

text \<open>\<open>ContentRequest\<close>, its fields under their JSON names; an absent field is empty.\<close>

record ContentRequest =
  post_id :: gostring
  format :: gostring

record ContentResponse =
  Content :: gostring
  Format :: gostring
  PostID :: gostring
  Title :: gostring
  CharCount :: nat

text \<open>
  What the handler writes: \<open>http.Error(w, message, code)\<close>, or \<open>render.JSON\<close> of the
  response struct, with status 200.
\<close>

datatype response =
    Error gostring nat
  | JSON ContentResponse

text \<open>
  \<open>getContent\<close>; \<open>body\<close> is what decoding the request body gave, \<open>None\<close> when it failed.
\<close>

definition getContent ::
  "(rune \<Rightarrow> bool) \<Rightarrow> (gostring \<times> gostring) list \<Rightarrow> ContentRequest option \<Rightarrow>
   TokenManager \<Rightarrow> world \<Rightarrow> (response \<times> TokenManager \<times> world) option" where
  "getContent printable order body tm w =
     (case body of
        None \<Rightarrow> Some (Error (str ''Invalid request body'') 400, tm, w)
      | Some req \<Rightarrow>
          if post_id req = [] then Some (Error (str ''Post ID is required'') 400, tm, w)
          else if format req \<noteq> [] \<and> format req \<noteq> str ''html'' \<and> format req \<noteq> str ''text''
          then Some (Error (str ''Format must be 'html' or 'text'' @ [0x27]) 400, tm, w)
          else
            (let req = (if format req = [] then req\<lparr>format := str ''html''\<rparr> else req)
             in case fetchContentFromBetterMode (post_id req) tm w of
                  None \<Rightarrow> None
                | Some ((content, title, Some err), tm', w') \<Rightarrow>
                    Some (Error (str ''Error fetching content: '' @ err) 500, tm', w')
                | Some ((content, title, None), tm', w') \<Rightarrow>
                    (let processedContent = cleanupContent printable order content;
                         processedContent =
                           (if format req = str ''text'' then stripHTMLTags processedContent
                            else processedContent)
                     in Some (JSON \<lparr>Content = processedContent, Format = format req,
                                      PostID = post_id req, Title = title,
                                      CharCount = len processedContent\<rparr>, tm', w'))))"

section \<open>Auxiliary definitions\<close>

text \<open>The first step of \<open>cleanupContent\<close> and its last, named for the proofs.\<close>

definition stripQuotes :: "gostring \<Rightarrow> gostring" where
  "stripQuotes content =
     (if len content > 2 \<and> hd content = 0x22 \<and> last content = 0x22
      then butlast (tl content) else content)"

definition replaceEntities :: "(gostring \<times> gostring) list \<Rightarrow> gostring \<Rightarrow> gostring" where
  "replaceEntities order content =
     fold (\<lambda>(escaped, unescaped) content. ReplaceAll content escaped unescaped) order content"

text \<open>
  An upstream that rejects every post query with status 401 and answers every token query
  with a token.
\<close>

definition always_unauthorized :: "world \<Rightarrow> bool" where
  "always_unauthorized w =
     ((\<forall>n token postID. StatusCode (posts w n token postID) = Some 401)
      \<and> (\<forall>n. \<exists>code token. tokens w n = Decoded code token \<and> token \<noteq> []))"

subsection \<open>Sample states\<close>

text \<open>Tables of \<open>IsPrint\<close> in which no rune beyond Latin-1 is printable.\<close>

definition latin1_only :: "rune \<Rightarrow> bool" where
  "latin1_only r = False"

text \<open>A token manager that holds a token with a day to live at time 0.\<close>

definition stored :: TokenManager where
  "stored = \<lparr>accessToken = str ''stored'', expiry = 24 * Hour,
              networkDomain = str ''www.gpters.org''\<rparr>"

text \<open>An upstream that cannot be reached.\<close>

definition upstream_down :: world where
  "upstream_down =
     \<lparr>now = 0, requests = 0, latency = (\<lambda>n. 1000),
      tokens = (\<lambda>n. SendError (str ''connection refused'')),
      posts = (\<lambda>n token postID. SendError (str ''connection refused''))\<rparr>"

text \<open>An upstream that issues tokens and serves a post whose content is two Hangul syllables.\<close>

definition upstream_up :: world where
  "upstream_up =
     \<lparr>now = 0, requests = 0, latency = (\<lambda>n. 1000),
      tokens = (\<lambda>n. Decoded 200 (str ''fresh'')),
      posts = (\<lambda>n token postID. Decoded 200
         \<lparr>Data_Post_MappingFields =
            [\<lparr>Key = str ''title'', Type = str ''text'', Value = str ''Hi''\<rparr>,
             \<lparr>Key = str ''content'', Type = str ''html'', Value = [0xD55C, 0xAE00]\<rparr>],
          Data_Post_Title = str ''Hi''\<rparr>)\<rparr>"

text \<open>
  An upstream that issues tokens, rejects the post queries among its first four requests
  with status 401 and serves the post from the fifth request on.
\<close>

definition twice_unauthorized :: world where
  "twice_unauthorized =
     \<lparr>now = 0, requests = 0, latency = (\<lambda>n. 1000),
      tokens = (\<lambda>n. Decoded 200 (str ''fresh'')),
      posts = (\<lambda>n token postID.
         if n < 4 then Decoded 401 \<lparr>Data_Post_MappingFields = [], Data_Post_Title = []\<rparr>
         else Decoded 200
           \<lparr>Data_Post_MappingFields =
              [\<lparr>Key = str ''content'', Type = str ''html'', Value = str ''<p>hi</p>''\<rparr>],
            Data_Post_Title = str ''T''\<rparr>)\<rparr>"

section \<open>The loop of stripHTMLTags ends\<close>

text \<open>A replacement that finds a match makes the text shorter.\<close>

lemma HasPrefix_length: "HasPrefix s p \<Longrightarrow> length p \<le> length s"
proof -
  assume "HasPrefix s p"
  then have "length (take (length p) s) = length p"
    by (simp add: HasPrefix_def)
  then show ?thesis by simp
qed

lemma HasPrefix_Cons: "HasPrefix (c # cs) (k # ks) = (c = k \<and> HasPrefix cs ks)"
  by (simp add: HasPrefix_def)

lemma length_ReplaceAll_le:
  "length new \<le> length (k # ks) \<Longrightarrow> length (ReplaceAll s (k # ks) new) \<le> length s"
proof (induction s "k # ks" new rule: ReplaceAll.induct)
  case (1 new)
  then show ?case by simp
next
  case (3 c cs new)
  show ?case
  proof (cases "HasPrefix (c # cs) (k # ks)")
    case True
    then have "length ks \<le> length cs"
      using HasPrefix_length [of cs ks] by (simp add: HasPrefix_Cons)
    then show ?thesis using True 3 by simp
  next
    case False
    then show ?thesis using 3 by simp
  qed
qed

lemma length_ReplaceAll_less:
  "Contains s (k # ks) \<Longrightarrow> length new < length (k # ks) \<Longrightarrow>
   length (ReplaceAll s (k # ks) new) < length s"
proof (induction s "k # ks" new rule: ReplaceAll.induct)
  case (1 new)
  then show ?case by simp
next
  case (3 c cs new)
  show ?case
  proof (cases "HasPrefix (c # cs) (k # ks)")
    case True
    have "length (ReplaceAll (drop (length ks) cs) (k # ks) new) \<le> length (drop (length ks) cs)"
      using 3(4) by (intro length_ReplaceAll_le) simp
    moreover have "length ks \<le> length cs"
      using True HasPrefix_length [of cs ks] by (simp add: HasPrefix_Cons)
    ultimately show ?thesis using True 3(4) by simp
  next
    case False
    then show ?thesis using 3 by simp
  qed
qed

termination collapseSpaces
  by (relation "measure length") (auto simp: str_def intro!: length_ReplaceAll_less)

declare collapseSpaces.simps [simp del]

section \<open>Properties of the string functions\<close>

lemma set_ReplaceAll: "set (ReplaceAll s old new) \<subseteq> set s \<union> set new"
proof (induction s old new rule: ReplaceAll.induct)
  case (3 c cs k ks new)
  then show ?case using set_drop_subset [of "length ks" cs] by auto
qed auto

lemma HasPrefix_append: "HasPrefix m sub \<Longrightarrow> HasPrefix (m @ b) sub"
  using HasPrefix_length [of m sub] by (simp add: HasPrefix_def)

lemma Contains_append_right: "Contains m sub \<Longrightarrow> Contains (m @ b) sub"
proof (induction m)
  case Nil
  then show ?case by (cases b) (auto simp: HasPrefix_def)
next
  case (Cons c m)
  then show ?case using HasPrefix_append [of "c # m" sub b] by auto
qed

lemma Contains_append_left: "Contains m sub \<Longrightarrow> Contains (a @ m) sub"
  by (induction a) auto

lemma Contains_set: "Contains s sub \<Longrightarrow> set sub \<subseteq> set s"
proof (induction s)
  case Nil
  then show ?case by simp
next
  case (Cons c s)
  then show ?case
  proof (cases "HasPrefix (c # s) sub")
    case True
    then have "sub = take (length sub) (c # s)" by (simp add: HasPrefix_def)
    then show ?thesis by (metis set_take_subset)
  next
    case False
    then show ?thesis using Cons by auto
  qed
qed

lemma ReplaceAll_absent: "\<not> Contains s (k # ks) \<Longrightarrow> ReplaceAll s (k # ks) new = s"
  by (induction s "k # ks" new rule: ReplaceAll.induct) auto

lemma TrimSpace_decomp: "\<exists>a b. s = a @ TrimSpace s @ b"
proof -
  let ?t = "dropWhile IsSpace s"
  have "s = takeWhile IsSpace s @ ?t" by simp
  moreover have "?t = TrimSpace s @ rev (takeWhile IsSpace (rev ?t))"
    unfolding TrimSpace_def by (metis rev_append rev_rev_ident takeWhile_dropWhile_id)
  ultimately show ?thesis by metis
qed

lemma Contains_TrimSpace: "Contains (TrimSpace s) sub \<Longrightarrow> Contains s sub"
  using TrimSpace_decomp [of s] Contains_append_left Contains_append_right by metis

lemma set_TrimSpace: "set (TrimSpace s) \<subseteq> set s"
  using TrimSpace_decomp [of s] by (metis Un_iff set_append subsetI)

lemma TrimSpace_last: "TrimSpace s \<noteq> [] \<Longrightarrow> \<not> IsSpace (last (TrimSpace s))"
  unfolding TrimSpace_def by (simp add: last_rev hd_dropWhile)

lemma TrimSpace_hd: "TrimSpace s \<noteq> [] \<Longrightarrow> \<not> IsSpace (hd (TrimSpace s))"
proof -
  assume ne: "TrimSpace s \<noteq> []"
  let ?t = "dropWhile IsSpace s"
  obtain b where t: "?t = TrimSpace s @ b"
    unfolding TrimSpace_def by (metis rev_append rev_rev_ident takeWhile_dropWhile_id)
  with ne have "?t \<noteq> []" by auto
  then have "\<not> IsSpace (hd ?t)" by (rule hd_dropWhile)
  moreover have "hd ?t = hd (TrimSpace s)" using t ne by (metis hd_append2)
  ultimately show ?thesis by simp
qed

section \<open>Properties of stripHTMLTags\<close>

lemma set_scanTags:
  "set (scanTags rs inTag result) \<subseteq> set result \<union> (set rs - {0x3C, 0x3E}) \<union> {0x20}"
  by (induction rs inTag result rule: scanTags.induct) auto

lemma set_collapseSpaces: "set (collapseSpaces t) \<subseteq> set t \<union> {0x20}"
proof (induction t rule: collapseSpaces.induct)
  case (1 t)
  show ?case
  proof (cases "Contains t (str ''  '')")
    case True
    then have "set (collapseSpaces t) \<subseteq> set (ReplaceAll t (str ''  '') (str '' '')) \<union> {0x20}"
      using 1 by (simp add: collapseSpaces.simps [of t])
    then show ?thesis
      using set_ReplaceAll [of t "str ''  ''" "str '' ''"] by (auto simp: str_def)
  next
    case False
    then show ?thesis by (auto simp: collapseSpaces.simps [of t])
  qed
qed

lemma collapseSpaces_no_double: "\<not> Contains (collapseSpaces t) (str ''  '')"
proof (induction t rule: collapseSpaces.induct)
  case (1 t)
  then show ?case by (simp add: collapseSpaces.simps [of t])
qed

text \<open>
  C8: \<open>stripHTMLTags\<close> applied to \<open><p>Hello <b>World</b></p>\<close> returns exactly
  \<open>Hello World\<close>: the tags are gone, the runs of spaces that the scan leaves where the
  tags stood are single spaces, and the ends are trimmed.
\<close>

theorem stripHTMLTags_hello_world:
  "stripHTMLTags (str ''<p>Hello <b>World</b></p>'') = str ''Hello World''"
  by (simp add: stripHTMLTags_def str_def HasPrefix_def TrimSpace_def IsSpace_def
      collapseSpaces.simps)

text \<open>
  C10: for every input, the output of \<open>stripHTMLTags\<close> contains no \<open><\<close> and no \<open>>\<close>,
  contains no two consecutive spaces, and neither begins nor ends with a white-space
  character.
\<close>

theorem stripHTMLTags_clean:
  "0x3C \<notin> set (stripHTMLTags html) \<and> 0x3E \<notin> set (stripHTMLTags html)
   \<and> \<not> Contains (stripHTMLTags html) (str ''  '')
   \<and> (stripHTMLTags html \<noteq> [] \<longrightarrow>
        \<not> IsSpace (hd (stripHTMLTags html)) \<and> \<not> IsSpace (last (stripHTMLTags html)))"
proof -
  let ?a = "scanTags html False []"
  let ?b = "ReplaceAll ?a (str ''&nbsp;'') (str '' '')"
  let ?c = "ReplaceAll ?b [0x0A, 0x0A] [0x0A]"
  let ?d = "collapseSpaces ?c"
  have out: "stripHTMLTags html = TrimSpace ?d" by (simp add: stripHTMLTags_def)
  have a: "0x3C \<notin> set ?a \<and> 0x3E \<notin> set ?a"
    using set_scanTags [of html False "[]"] by auto
  have b: "0x3C \<notin> set ?b \<and> 0x3E \<notin> set ?b"
    using a set_ReplaceAll [of ?a "str ''&nbsp;''" "str '' ''"] by (auto simp: str_def)
  have c: "0x3C \<notin> set ?c \<and> 0x3E \<notin> set ?c"
    using b set_ReplaceAll [of ?b "[0x0A, 0x0A]" "[0x0A]"] by auto
  have d: "0x3C \<notin> set ?d \<and> 0x3E \<notin> set ?d"
    using c set_collapseSpaces [of ?c] by auto
  have e: "0x3C \<notin> set (TrimSpace ?d) \<and> 0x3E \<notin> set (TrimSpace ?d)"
    using d set_TrimSpace [of ?d] by auto
  have f: "\<not> Contains (TrimSpace ?d) (str ''  '')"
    using collapseSpaces_no_double [of ?c] Contains_TrimSpace by blast
  show ?thesis
    unfolding out using e f TrimSpace_hd [of ?d] TrimSpace_last [of ?d] by blast
qed

theorem stripHTMLTags_clean_witness:
  "stripHTMLTags (str '' <i>a  > b</i> '') = str ''a b''
   \<and> 0x3C \<notin> set (stripHTMLTags (str '' <i>a  > b</i> ''))
   \<and> 0x3E \<notin> set (stripHTMLTags (str '' <i>a  > b</i> ''))
   \<and> \<not> Contains (stripHTMLTags (str '' <i>a  > b</i> '')) (str ''  '')
   \<and> \<not> IsSpace (hd (stripHTMLTags (str '' <i>a  > b</i> '')))
   \<and> \<not> IsSpace (last (stripHTMLTags (str '' <i>a  > b</i> '')))"
proof -
  have out: "stripHTMLTags (str '' <i>a  > b</i> '') = str ''a b''"
    by (simp add: stripHTMLTags_def str_def HasPrefix_def TrimSpace_def IsSpace_def
        collapseSpaces.simps)
  then have "stripHTMLTags (str '' <i>a  > b</i> '') \<noteq> []"
    by (simp add: str_def)
  with stripHTMLTags_clean [of "str '' <i>a  > b</i> ''"] out show ?thesis
    by blast
qed

section \<open>Properties of unescapeUnicodeJSON\<close>

lemma hexval_lowerhex: "d < 16 \<Longrightarrow> hexval (lowerhex ! d) = Some d"
proof -
  assume "d < 16"
  then have "d = 0 \<or> d = 1 \<or> d = 2 \<or> d = 3 \<or> d = 4 \<or> d = 5 \<or> d = 6 \<or> d = 7 \<or> d = 8
      \<or> d = 9 \<or> d = 10 \<or> d = 11 \<or> d = 12 \<or> d = 13 \<or> d = 14 \<or> d = 15"
    by presburger
  then show ?thesis
    by (elim disjE) (simp_all add: lowerhex_def str_def hexval_def)
qed

lemma hexdigits_4:
  "hexdigits 4 r = [lowerhex ! (r div 4096 mod 16), lowerhex ! (r div 256 mod 16),
                    lowerhex ! (r div 16 mod 16), lowerhex ! (r mod 16)]"
proof -
  have "hexdigits 4 r = hexdigits (Suc (Suc (Suc (Suc 0)))) r"
    by (simp only: numeral_eq_Suc pred_numeral_simps BitM.simps One_nat_def)
  then show ?thesis by simp
qed

lemma hex4_sum:
  fixes r :: nat
  assumes "r < 0x10000"
  shows "((r div 4096 mod 16 * 16 + r div 256 mod 16) * 16 + r div 16 mod 16) * 16 + r mod 16 = r"
proof -
  define a where "a = r div 16"
  define b where "b = a div 16"
  define c where "c = b div 16"
  have b: "r div 256 = b"
    unfolding b_def a_def by (simp add: div_mult2_eq [symmetric])
  have c: "r div 4096 = c"
    unfolding c_def b_def a_def by (simp add: div_mult2_eq [symmetric])
  have "r div 4096 < 16" using assms by linarith
  then have "c mod 16 = c" using c by simp
  moreover have "c * 16 + b mod 16 = b" unfolding c_def by simp
  moreover have "b * 16 + a mod 16 = a" unfolding b_def by simp
  moreover have "a * 16 + r mod 16 = r" unfolding a_def by simp
  ultimately show ?thesis using b c by (simp add: a_def)
qed

lemma getu4_hexdigits:
  assumes "r < 0x10000"
  shows "getu4 (0x5C # 0x75 # hexdigits 4 r @ rest) = Some r"
proof -
  have "getu4 (0x5C # 0x75 # hexdigits 4 r @ rest) =
        Some (((r div 4096 mod 16 * 16 + r div 256 mod 16) * 16 + r div 16 mod 16) * 16 + r mod 16)"
    by (simp add: hexdigits_4 hexval_lowerhex)
  then show ?thesis by (simp only: hex4_sum [OF assms])
qed

lemma IsPrint_ge: "IsPrint printable r \<Longrightarrow> 0x20 \<le> r"
  by (auto simp: IsPrint_def split: if_splits)

text \<open>
  What \<open>Quote\<close> writes for one valid rune, the decoder either rejects or reads back as
  that rune.
\<close>

lemma unquote_escaped:
  assumes "ValidRune r"
  shows "unquote (appendEscapedRune printable r @ rest) = None
       \<or> unquote (appendEscapedRune printable r @ rest) = map_option ((#) r) (unquote rest)"
proof -
  consider (quoted) "r = 0x22 \<or> r = 0x5C"
    | (raw) "r \<noteq> 0x22" "r \<noteq> 0x5C" "IsPrint printable r"
    | (ctrl) "r \<noteq> 0x22" "r \<noteq> 0x5C" "\<not> IsPrint printable r" "r < 0x20 \<or> r = 0x7F"
    | (small) "r \<noteq> 0x22" "r \<noteq> 0x5C" "\<not> IsPrint printable r" "\<not> (r < 0x20 \<or> r = 0x7F)"
        "r < 0x10000"
    | (large) "r \<noteq> 0x22" "r \<noteq> 0x5C" "\<not> IsPrint printable r" "\<not> (r < 0x20 \<or> r = 0x7F)"
        "\<not> r < 0x10000"
    by blast
  then show ?thesis
  proof cases
    case quoted
    then show ?thesis by (auto simp: appendEscapedRune_def)
  next
    case raw
    then show ?thesis
      using assms IsPrint_ge [of printable r] by (simp add: appendEscapedRune_def)
  next
    case ctrl
    then show ?thesis
      by (auto simp: appendEscapedRune_def str_def)
  next
    case small
    have "getu4 (0x5C # 0x75 # hexdigits 4 r @ rest) = Some r"
      using small by (intro getu4_hexdigits)
    moreover have "\<not> IsSurrogate r"
      using assms by (auto simp: ValidRune_def IsSurrogate_def)
    moreover have "drop 4 (hexdigits 4 r @ rest) = rest"
      by (simp add: hexdigits_4)
    moreover have "appendEscapedRune printable r = 0x5C # 0x75 # hexdigits 4 r"
      using small assms by (auto simp: appendEscapedRune_def str_def)
    ultimately show ?thesis by simp
  next
    case large
    then have "appendEscapedRune printable r = 0x5C # 0x55 # hexdigits 8 r"
      using assms by (auto simp: appendEscapedRune_def str_def)
    then show ?thesis by simp
  qed
qed

lemma unquote_Quote_body:
  "wellformed s \<Longrightarrow>
   unquote (concat (map (appendEscapedRune printable) s) @ [0x22]) = None
   \<or> unquote (concat (map (appendEscapedRune printable) s) @ [0x22]) = Some s"
proof (induction s)
  case Nil
  then show ?case by simp
next
  case (Cons r s)
  then have v: "ValidRune r" and w: "wellformed s" by (simp_all add: wellformed_def)
  let ?rest = "concat (map (appendEscapedRune printable) s) @ [0x22]"
  have eq: "concat (map (appendEscapedRune printable) (r # s)) @ [0x22] =
      appendEscapedRune printable r @ ?rest"
    by simp
  show ?case
    unfolding eq using unquote_escaped [OF v, of printable ?rest] Cons.IH [OF w] by auto
qed

lemma unmarshalContent_Quote:
  "unmarshalContent (str ''{\"content\": '' @ Quote printable s @ str ''}'') =
     (case unquote (concat (map (appendEscapedRune printable) s) @ [0x22]) of
        None \<Rightarrow> Inl SyntaxError | Some v \<Rightarrow> Inr v)"
  by (simp add: unmarshalContent_def Quote_def str_def HasPrefix_def butlast_append)

text \<open>
  \<open>Quote\<close> writes every backslash of its argument as two, so the decoder never sees an
  escape that the content held: on a well-formed string \<open>unescapeUnicodeJSON\<close> returns its
  argument, with or without an error.
\<close>

lemma unescapeUnicodeJSON_id:
  "wellformed s \<Longrightarrow> fst (unescapeUnicodeJSON printable s) = s"
  using unquote_Quote_body [of s printable]
  by (auto simp: unescapeUnicodeJSON_def unmarshalContent_Quote simp del: unquote.simps)

section \<open>Properties of cleanupContent\<close>

lemma wellformed_ReplaceAll:
  "wellformed s \<Longrightarrow> wellformed new \<Longrightarrow> wellformed (ReplaceAll s old new)"
  using set_ReplaceAll [of s old new] by (auto simp: wellformed_def list_all_iff)

lemma set_butlast_tl: "set (butlast (tl s)) \<subseteq> set s"
  by (cases s) (auto dest: in_set_butlastD)

lemma wellformed_stripQuotes: "wellformed s \<Longrightarrow> wellformed (stripQuotes s)"
  using set_butlast_tl [of s] by (auto simp: stripQuotes_def wellformed_def list_all_iff)

lemma cleanupContent_wellformed:
  assumes "wellformed content"
  shows "cleanupContent printable order content =
         replaceEntities order (ReplaceAll (stripQuotes content) [0x5C, 0x22] [0x22])"
proof -
  let ?c = "ReplaceAll (stripQuotes content) [0x5C, 0x22] [0x22]"
  have "wellformed ?c"
    using assms by (intro wellformed_ReplaceAll wellformed_stripQuotes) (simp_all add: wellformed_def ValidRune_def)
  then have "fst (unescapeUnicodeJSON printable ?c) = ?c"
    by (rule unescapeUnicodeJSON_id)
  then have "(case unescapeUnicodeJSON printable ?c of
               (result, None) \<Rightarrow> result | (result, Some err) \<Rightarrow> ?c) = ?c"
    by (auto split: prod.splits option.splits)
  moreover have "cleanupContent printable order content =
      replaceEntities order
        (case unescapeUnicodeJSON printable ?c of
           (result, None) \<Rightarrow> result | (result, Some err) \<Rightarrow> ?c)"
    by (simp add: cleanupContent_def replaceEntities_def stripQuotes_def Let_def)
  ultimately show ?thesis by (simp only:)
qed

lemma replaceEntities_absent:
  "\<forall>(escaped, unescaped) \<in> set order. escaped \<noteq> [] \<and> \<not> Contains s escaped \<Longrightarrow>
   replaceEntities order s = s"
proof (induction order)
  case Nil
  then show ?case by (simp add: replaceEntities_def)
next
  case (Cons e order)
  obtain escaped unescaped where e: "e = (escaped, unescaped)" by (cases e)
  with Cons.prems obtain k ks where "escaped = k # ks" "\<not> Contains s (k # ks)"
    by (cases escaped) auto
  then have "ReplaceAll s escaped unescaped = s" by (simp add: ReplaceAll_absent)
  then show ?case using Cons e by (simp add: replaceEntities_def)
qed


lemma iteration_subset: "iteration order \<Longrightarrow> set order \<subseteq> set htmlReplacements"
  by (simp add: iteration_def)

lemma iteration_htmlReplacements: "iteration htmlReplacements"
  by (simp add: iteration_def htmlReplacements_def str_def)


lemma table_absent:
  assumes "set order \<subseteq> set htmlReplacements"
    and "\<forall>(escaped, unescaped) \<in> set htmlReplacements. \<not> Contains s escaped"
  shows "replaceEntities order s = s"
proof (rule replaceEntities_absent)
  have "\<forall>(escaped, unescaped) \<in> set htmlReplacements. escaped \<noteq> []"
    by (simp add: htmlReplacements_def str_def)
  with assms show "\<forall>(escaped, unescaped) \<in> set order. escaped \<noteq> [] \<and> \<not> Contains s escaped"
    by blast
qed

lemma no_ampersand_absent:
  "0x26 \<notin> set s \<Longrightarrow> \<forall>(escaped, unescaped) \<in> set htmlReplacements. \<not> Contains s escaped"
proof -
  assume a: "0x26 \<notin> set s"
  have "\<forall>(escaped, unescaped) \<in> set htmlReplacements. 0x26 \<in> set escaped"
    by (simp add: htmlReplacements_def str_def)
  with a show ?thesis using Contains_set by fastforce
qed

lemma no_backslash_ReplaceAll: "0x5C \<notin> set s \<Longrightarrow> ReplaceAll s [0x5C, 0x22] new = s"
proof -
  assume "0x5C \<notin> set s"
  then have "\<not> Contains s [0x5C, 0x22]" using Contains_set [of s "[0x5C, 0x22]"] by auto
  then show ?thesis by (rule ReplaceAll_absent)
qed

lemma no_quote_stripQuotes: "\<not> (2 < len s \<and> hd s = 0x22 \<and> last s = 0x22) \<Longrightarrow> stripQuotes s = s"
  by (auto simp: stripQuotes_def)

lemma cleanupContent_plain:
  assumes "wellformed s" "\<not> (2 < len s \<and> hd s = 0x22 \<and> last s = 0x22)" "0x5C \<notin> set s"
  shows "cleanupContent printable order s = replaceEntities order s"
  using assms
  by (simp add: cleanupContent_wellformed no_quote_stripQuotes no_backslash_ReplaceAll)

lemma wellformed_str_ascii: "wellformed (0x5C # str ''u0041'')"
  by (simp add: wellformed_def ValidRune_def str_def)

lemma replaceEntities_amp:
  "set order \<subseteq> set htmlReplacements \<Longrightarrow>
   replaceEntities order (str ''&amp;'') =
     (if (str ''&amp;'', str ''&'') \<in> set order then str ''&'' else str ''&amp;'')"
proof (induction order)
  case Nil
  then show ?case by (simp add: replaceEntities_def)
next
  case (Cons e order)
  then have sub: "set order \<subseteq> set htmlReplacements" and e: "e \<in> set htmlReplacements"
    by auto
  have amp: "replaceEntities order (str ''&'') = str ''&''"
    using sub by (intro table_absent) (simp_all add: htmlReplacements_def str_def HasPrefix_def)
  obtain escaped unescaped where eq: "e = (escaped, unescaped)" by (cases e)
  have step: "replaceEntities (e # order) s = replaceEntities order (ReplaceAll s escaped unescaped)"
    for s
    by (simp add: eq replaceEntities_def)
  from e eq consider "escaped = str ''&amp;''" "unescaped = str ''&''"
    | "e \<noteq> (str ''&amp;'', str ''&'')" "ReplaceAll (str ''&amp;'') escaped unescaped = str ''&amp;''"
    by (auto simp: htmlReplacements_def str_def HasPrefix_def)
  then show ?case
  proof cases
    case 1
    then have "ReplaceAll (str ''&amp;'') escaped unescaped = str ''&''"
      by (simp add: str_def HasPrefix_def)
    then have "replaceEntities (e # order) (str ''&amp;'') = str ''&''"
      using amp by (simp only: step)
    moreover have "(str ''&amp;'', str ''&'') \<in> set (e # order)"
      using 1 eq by simp
    ultimately show ?thesis by (simp only: if_True)
  next
    case 2
    then have "replaceEntities (e # order) (str ''&amp;'') = replaceEntities order (str ''&amp;'')"
      by (simp only: step)
    moreover have "(str ''&amp;'', str ''&'') \<in> set (e # order) \<longleftrightarrow>
        (str ''&amp;'', str ''&'') \<in> set order"
      using 2(1) by auto
    ultimately show ?thesis using Cons.IH [OF sub] by (simp only:)
  qed
qed

text \<open>
  C4: the claim is that under the html format, which is \<open>cleanupContent\<close> alone, the six
  characters \<open>\u0041\<close> normalize to \<open>A\<close> and \<open>&amp;\<close> normalizes to \<open>&\<close>. The
  second half holds, in every iteration order. The first does not: \<open>cleanupContent\<close>
  returns the six characters as they are, since \<open>Quote\<close> doubles their backslash before
  the decoder reads them.
\<close>

theorem cleanupContent_escape_kept:
  assumes "iteration order"
  shows "cleanupContent printable order (0x5C # str ''u0041'') = 0x5C # str ''u0041''
       \<and> cleanupContent printable order (str ''&amp;'') = str ''&''"
proof
  have "cleanupContent printable order (0x5C # str ''u0041'') =
        replaceEntities order (0x5C # str ''u0041'')"
    using cleanupContent_wellformed [OF wellformed_str_ascii, of printable order]
    by (simp add: stripQuotes_def str_def HasPrefix_def)
  also have "\<dots> = 0x5C # str ''u0041''"
    using iteration_subset [OF assms]
    by (intro table_absent no_ampersand_absent) (simp_all add: str_def)
  finally show "cleanupContent printable order (0x5C # str ''u0041'') = 0x5C # str ''u0041''" .
next
  have "wellformed (str ''&amp;'')" by (simp add: wellformed_def ValidRune_def str_def)
  then have "cleanupContent printable order (str ''&amp;'') = replaceEntities order (str ''&amp;'')"
    by (intro cleanupContent_plain) (simp_all add: str_def)
  also have "\<dots> = str ''&''"
    using assms replaceEntities_amp [OF iteration_subset [OF assms]]
    by (simp add: iteration_def htmlReplacements_def)
  finally show "cleanupContent printable order (str ''&amp;'') = str ''&''" .
qed

theorem cleanupContent_escape_kept_witness:
  "iteration htmlReplacements
   \<and> cleanupContent latin1_only htmlReplacements (0x5C # str ''u0041'') = 0x5C # str ''u0041''
   \<and> cleanupContent latin1_only htmlReplacements (str ''&amp;'') = str ''&''"
  using cleanupContent_escape_kept [OF iteration_htmlReplacements, of latin1_only]
    iteration_htmlReplacements by simp






text \<open>
  A second application also differs when the first one uncovers a pair of enclosing quotes.
\<close>

lemma cleanupContent_twice_differs_quotes:
  "cleanupContent latin1_only htmlReplacements (str ''&quot;a&quot;'') = str ''\"a\"''
   \<and> cleanupContent latin1_only htmlReplacements (str ''\"a\"'') = str ''a''"
proof -
  have w1: "wellformed (str ''&quot;a&quot;'')" and w2: "wellformed (str ''\"a\"'')"
    by (simp_all add: wellformed_def ValidRune_def str_def)
  have "cleanupContent latin1_only htmlReplacements (str ''&quot;a&quot;'') = str ''\"a\"''"
    using cleanupContent_plain [OF w1, of latin1_only htmlReplacements]
    by (simp add: replaceEntities_def htmlReplacements_def str_def HasPrefix_def)
  moreover have "cleanupContent latin1_only htmlReplacements (str ''\"a\"'') = str ''a''"
    using cleanupContent_wellformed [OF w2, of latin1_only htmlReplacements]
    by (simp add: replaceEntities_def stripQuotes_def len_def RuneLen_def htmlReplacements_def
        str_def HasPrefix_def)
  ultimately show ?thesis by blast
qed


subsection \<open>What one pass leaves\<close>
























section \<open>Properties of the token manager\<close>

lemma elapse_fields [simp]:
  "requests (elapse w) = Suc (requests w)" "posts (elapse w) = posts w"
  "tokens (elapse w) = tokens w" "latency (elapse w) = latency w"
  by (simp_all add: elapse_def)

lemma RefreshToken_world: "RefreshToken tm w = (r, tm', w') \<Longrightarrow> w' = elapse w"
  by (auto simp: RefreshToken_def postTokenQuery_def split: reply.splits if_splits)

lemma RefreshToken_error: "RefreshToken tm w = (Some err, tm', w') \<Longrightarrow> tm' = tm"
  by (auto simp: RefreshToken_def postTokenQuery_def split: reply.splits if_splits)

text \<open>
  \<open>RefreshToken\<close> returns an error in exactly four cases: the request cannot be sent, the
  body cannot be read, the body is not the expected JSON, the token field is empty.
\<close>

lemma RefreshToken_error_iff:
  "fst (RefreshToken tm w) \<noteq> None \<longleftrightarrow>
   (\<forall>code token. tokens w (requests w) = Decoded code token \<longrightarrow> token = [])"
  by (auto simp: RefreshToken_def postTokenQuery_def split: reply.splits if_splits)

lemma RefreshToken_success:
  "RefreshToken tm w = (None, tm', w') \<Longrightarrow>
   accessToken tm' \<noteq> [] \<and> expiry tm' = now w' + 24 * Hour"
  by (auto simp: RefreshToken_def postTokenQuery_def split: reply.splits if_splits)

text \<open>
  C3: whenever \<open>RefreshToken\<close> returns an error, the stored credential is exactly what it
  was before the call: the token, the expiry and with them the whole token manager.
\<close>

theorem RefreshToken_failure:
  "RefreshToken tm w = (Some err, tm', w') \<Longrightarrow>
   accessToken tm' = accessToken tm \<and> expiry tm' = expiry tm \<and> tm' = tm"
  by (auto simp: RefreshToken_def postTokenQuery_def split: reply.splits if_splits)

theorem RefreshToken_failure_witness:
  "RefreshToken stored upstream_down =
     (Some (str ''error sending token request: connection refused''), stored, elapse upstream_down)
   \<and> accessToken stored = str ''stored'' \<and> expiry stored = 24 * Hour"
proof -
  have run: "RefreshToken stored upstream_down =
     (Some (str ''error sending token request: connection refused''), stored, elapse upstream_down)"
    by (simp add: RefreshToken_def postTokenQuery_def upstream_down_def str_def)
  from RefreshToken_failure [OF run] show ?thesis
    using run by (simp add: stored_def)
qed

text \<open>
  C2 as stated fails on the boundary: a token whose expiry is exactly 5 minutes away is not
  more than 5 minutes from expiring, yet \<open>GetToken\<close> returns it and sends nothing to the
  upstream, where a refresh would have failed.
\<close>

theorem GetToken_boundary:
  "accessToken (stored\<lparr>expiry := 5 * Minute\<rparr>) \<noteq> []
   \<and> \<not> (now upstream_down + 5 * Minute < expiry (stored\<lparr>expiry := 5 * Minute\<rparr>))
   \<and> GetToken (stored\<lparr>expiry := 5 * Minute\<rparr>) upstream_down =
       ((str ''stored'', None), stored\<lparr>expiry := 5 * Minute\<rparr>, upstream_down)
   \<and> fst (RefreshToken (stored\<lparr>expiry := 5 * Minute\<rparr>) upstream_down) \<noteq> None"
  by (simp add: GetToken_def RefreshToken_def postTokenQuery_def stored_def upstream_down_def str_def)

text \<open>
  C2, amended: \<open>GetToken\<close> returns the stored token, and leaves the token manager and the
  world as they are, when that token is non-empty and its expiry is at least 5 minutes after
  the current time; otherwise it performs a refresh before returning, returns an error with
  an empty token and an unchanged token manager exactly when that refresh fails, and returns
  the refreshed token when it succeeds. A token it returns is the stored one, is never
  empty, and its expiry is never less than 5 minutes after the current time.
\<close>

theorem GetToken_spec:
  "(accessToken tm \<noteq> [] \<and> now w + 5 * Minute \<le> expiry tm \<longrightarrow>
      GetToken tm w = ((accessToken tm, None), tm, w))
   \<and> (accessToken tm = [] \<or> expiry tm < now w + 5 * Minute \<longrightarrow>
      (\<forall>err tm' w'. RefreshToken tm w = (Some err, tm', w') \<longrightarrow>
          GetToken tm w = (([], Some err), tm, w'))
      \<and> (\<forall>tm' w'. RefreshToken tm w = (None, tm', w') \<longrightarrow>
          GetToken tm w = ((accessToken tm', None), tm', w')))
   \<and> (\<forall>token tm' w'. GetToken tm w = ((token, None), tm', w') \<longrightarrow>
          token = accessToken tm' \<and> token \<noteq> [] \<and> now w' + 5 * Minute \<le> expiry tm')"
proof (intro conjI impI allI)
  assume "accessToken tm \<noteq> [] \<and> now w + 5 * Minute \<le> expiry tm"
  then show "GetToken tm w = ((accessToken tm, None), tm, w)"
    by (simp add: GetToken_def)
next
  fix err tm' w'
  assume "accessToken tm = [] \<or> expiry tm < now w + 5 * Minute"
    and r: "RefreshToken tm w = (Some err, tm', w')"
  moreover have "tm' = tm" using r by (rule RefreshToken_error)
  ultimately show "GetToken tm w = (([], Some err), tm, w')"
    by (auto simp: GetToken_def)
next
  fix tm' w'
  assume "accessToken tm = [] \<or> expiry tm < now w + 5 * Minute"
    and "RefreshToken tm w = (None, tm', w')"
  then show "GetToken tm w = ((accessToken tm', None), tm', w')"
    by (auto simp: GetToken_def)
next
  fix token tm' w'
  assume g: "GetToken tm w = ((token, None), tm', w')"
  show "token = accessToken tm'" "token \<noteq> []" "now w' + 5 * Minute \<le> expiry tm'"
    using g RefreshToken_success [of tm w]
    by (auto simp: GetToken_def Hour_def Minute_def split: if_splits prod.splits option.splits)
qed

theorem GetToken_spec_witness:
  "GetToken stored upstream_down = ((str ''stored'', None), stored, upstream_down)
   \<and> GetToken (stored\<lparr>accessToken := []\<rparr>) upstream_down =
       (([], Some (str ''error sending token request: connection refused'')),
        stored\<lparr>accessToken := []\<rparr>, elapse upstream_down)
   \<and> GetToken (stored\<lparr>expiry := 5 * Minute - 1\<rparr>) upstream_up =
       ((str ''fresh'', None),
        stored\<lparr>accessToken := str ''fresh'', expiry := 1000 + 24 * Hour\<rparr>, elapse upstream_up)
   \<and> now (elapse upstream_up) + 5 * Minute \<le> 1000 + 24 * Hour"
proof -
  have a: "accessToken stored \<noteq> [] \<and> now upstream_down + 5 * Minute \<le> expiry stored"
    by (simp add: stored_def upstream_down_def str_def Minute_def Hour_def)
  have b: "accessToken (stored\<lparr>accessToken := []\<rparr>) = []
      \<or> expiry (stored\<lparr>accessToken := []\<rparr>) < now upstream_down + 5 * Minute"
    by simp
  have b': "RefreshToken (stored\<lparr>accessToken := []\<rparr>) upstream_down =
      (Some (str ''error sending token request: connection refused''),
       stored\<lparr>accessToken := []\<rparr>, elapse upstream_down)"
    by (simp add: RefreshToken_def postTokenQuery_def upstream_down_def str_def)
  have c: "accessToken (stored\<lparr>expiry := 5 * Minute - 1\<rparr>) = []
      \<or> expiry (stored\<lparr>expiry := 5 * Minute - 1\<rparr>) < now upstream_up + 5 * Minute"
    by (simp add: upstream_up_def)
  have c': "RefreshToken (stored\<lparr>expiry := 5 * Minute - 1\<rparr>) upstream_up =
      (None, stored\<lparr>accessToken := str ''fresh'', expiry := 1000 + 24 * Hour\<rparr>,
       elapse upstream_up)"
    by (simp add: RefreshToken_def postTokenQuery_def upstream_up_def elapse_def stored_def str_def)
  have "GetToken stored upstream_down = ((accessToken stored, None), stored, upstream_down)"
    using GetToken_spec [of stored upstream_down, THEN conjunct1] a by blast
  then have 1: "GetToken stored upstream_down = ((str ''stored'', None), stored, upstream_down)"
    by (simp add: stored_def)
  have 2: "GetToken (stored\<lparr>accessToken := []\<rparr>) upstream_down =
       (([], Some (str ''error sending token request: connection refused'')),
        stored\<lparr>accessToken := []\<rparr>, elapse upstream_down)"
    using GetToken_spec [of "stored\<lparr>accessToken := []\<rparr>" upstream_down,
        THEN conjunct2, THEN conjunct1] b b'
    by blast
  have "GetToken (stored\<lparr>expiry := 5 * Minute - 1\<rparr>) upstream_up =
       ((accessToken (stored\<lparr>accessToken := str ''fresh'', expiry := 1000 + 24 * Hour\<rparr>), None),
        stored\<lparr>accessToken := str ''fresh'', expiry := 1000 + 24 * Hour\<rparr>, elapse upstream_up)"
    using GetToken_spec [of "stored\<lparr>expiry := 5 * Minute - 1\<rparr>" upstream_up,
        THEN conjunct2, THEN conjunct1] c c'
    by blast
  then have 3: "GetToken (stored\<lparr>expiry := 5 * Minute - 1\<rparr>) upstream_up =
       ((str ''fresh'', None),
        stored\<lparr>accessToken := str ''fresh'', expiry := 1000 + 24 * Hour\<rparr>, elapse upstream_up)"
    by simp
  have "now (elapse upstream_up) + 5 * Minute
      \<le> expiry (stored\<lparr>accessToken := str ''fresh'', expiry := 1000 + 24 * Hour\<rparr>)"
    using GetToken_spec [of "stored\<lparr>expiry := 5 * Minute - 1\<rparr>" upstream_up,
        THEN conjunct2, THEN conjunct2] 3
    by blast
  then have 4: "now (elapse upstream_up) + 5 * Minute \<le> 1000 + 24 * Hour"
    by simp
  from 1 2 3 4 show ?thesis by blast
qed

section \<open>Properties of the upstream client\<close>

lemma GetToken_world: "GetToken tm w = (r, tm', w') \<Longrightarrow> w' = w \<or> w' = elapse w"
  by (auto simp: GetToken_def split: if_splits prod.splits option.splits dest: RefreshToken_world)

text \<open>A call of \<open>fetchContentFromBetterMode\<close> that returns has sent a request.\<close>

lemma fetch_sends_request:
  assumes "fetchContentFromBetterMode postID tm w = Some y"
  shows "requests w < requests (snd (snd y))"
proof (rule fetchContentFromBetterMode.raw_induct
    [where P = "\<lambda>postID tm w y. requests w < requests (snd (snd y))", rotated 1, OF assms],
    goal_cases)
  case (1 fetch postID tm w y)
  obtain r tm1 w1 where g: "GetToken tm w = (r, tm1, w1)"
    by (cases "GetToken tm w") auto
  then have w1: "requests w \<le> requests w1"
    using GetToken_world [OF g] by auto
  show ?case
  proof (cases "snd r")
    case (Some err)
    then have "snd (snd y) = w1"
      using 1(2) g by (cases r) auto
    moreover have "w1 = elapse w"
      using Some g
      by (auto simp: GetToken_def split: if_splits prod.splits option.splits
          dest: RefreshToken_world)
    ultimately have "requests (snd (snd y)) = Suc (requests w)"
      by (simp only: elapse_fields)
    then show ?thesis by simp
  next
    case None
    obtain resp where p: "postGetPost (fst r) postID w1 = (resp, elapse w1)"
      by (simp add: postGetPost_def)
    show ?thesis
    proof (cases "StatusCode resp = Some 401")
      case True
      obtain e tm3 w3 where rt: "RefreshToken tm1 (elapse w1) = (e, tm3, w3)"
        by (cases "RefreshToken tm1 (elapse w1)") auto
      then have w3: "w3 = elapse (elapse w1)" by (rule RefreshToken_world)
      show ?thesis
      proof (cases e)
        case None2: None
        have "fetch postID tm3 w3 = Some y"
          using 1(2) g None p True rt None2
          by (cases r; cases resp) (auto split: prod.splits option.splits)
        then have "requests w3 < requests (snd (snd y))" by (rule 1(1))
        then show ?thesis using w1 w3 by simp
      next
        case (Some err)
        have "snd (snd y) = w3"
          using 1(2) g None p True rt Some
          by (cases r; cases resp) (auto split: prod.splits option.splits)
        then show ?thesis using w1 w3 by simp
      qed
    next
      case False
      have "snd (snd y) = elapse w1"
        using 1(2) g None p False
        by (cases r; cases resp) (auto simp: Let_def split: prod.splits option.splits if_splits)
      then show ?thesis using w1 by simp
    qed
  qed
qed

text \<open>
  After a 401 the function refreshes the token once, returns the error of a refresh that
  fails, and after a refresh that succeeds calls itself.
\<close>

lemma fetch_unauthorized:
  assumes "GetToken tm w = ((token, None), tm1, w1)"
    and "StatusCode (posts w1 (requests w1) token postID) = Some 401"
  shows "fetchContentFromBetterMode postID tm w =
     (case RefreshToken tm1 (elapse w1) of
        (Some err, tm3, w3) \<Rightarrow>
          Some (([], [], Some (str ''failed to refresh token: '' @ err)), tm3, w3)
      | (None, tm3, w3) \<Rightarrow> fetchContentFromBetterMode postID tm3 w3)"
  using assms
  by (subst fetchContentFromBetterMode.simps)
    (cases "posts w1 (requests w1) token postID"; simp add: postGetPost_def)

text \<open>
  So nothing ends the retries but the upstream: while it answers 401 and issues tokens,
  the call does not return.
\<close>

lemma always_unauthorized_elapse [simp]: "always_unauthorized (elapse w) = always_unauthorized w"
  by (simp add: always_unauthorized_def)

lemma RefreshToken_issued:
  "always_unauthorized w \<Longrightarrow> \<exists>tm'. RefreshToken tm w = (None, tm', elapse w)"
proof -
  assume "always_unauthorized w"
  then obtain code token where "tokens w (requests w) = Decoded code token" "token \<noteq> []"
    unfolding always_unauthorized_def by blast
  then show ?thesis by (simp add: RefreshToken_def postTokenQuery_def)
qed

lemma fetch_never_returns:
  assumes "always_unauthorized w"
  shows "fetchContentFromBetterMode postID tm w = None"
proof (rule ccontr)
  assume "fetchContentFromBetterMode postID tm w \<noteq> None"
  then obtain y where y: "fetchContentFromBetterMode postID tm w = Some y" by auto
  have "\<not> always_unauthorized w"
  proof (rule fetchContentFromBetterMode.raw_induct
      [where P = "\<lambda>postID tm w y. \<not> always_unauthorized w", rotated 1, OF y], goal_cases)
    case (1 fetch postID tm w y)
    show ?case
    proof
      assume a: "always_unauthorized w"
      obtain r tm1 w1 where g: "GetToken tm w = (r, tm1, w1)"
        by (cases "GetToken tm w") auto
      have a1: "always_unauthorized w1"
        using GetToken_world [OF g] a by auto
      have ok: "snd r = None"
        using g a RefreshToken_issued [OF a, of tm]
        by (auto simp: GetToken_def split: if_splits)
      obtain resp where p: "postGetPost (fst r) postID w1 = (resp, elapse w1)"
        and s: "StatusCode resp = Some 401"
        using a1 by (simp add: postGetPost_def always_unauthorized_def)
      obtain tm3 where rt: "RefreshToken tm1 (elapse w1) = (None, tm3, elapse (elapse w1))"
        using RefreshToken_issued [of "elapse w1" tm1] a1 by auto
      have "fetch postID tm3 (elapse (elapse w1)) = Some y"
        using 1(2) g ok p s rt
        by (cases r; cases resp) (auto split: prod.splits option.splits)
      then have "\<not> always_unauthorized (elapse (elapse w1))" by (rule 1(1))
      then show False using a1 by simp
    qed
  qed
  then show False using assms by simp
qed

text \<open>
  C1: the claim is that a second authorization failure propagates as an error, after one
  refresh and one retry, and the comment in the source says "retry once". The function
  does not do this: against an upstream that answers 401 to the first two post queries it
  refreshes twice, sends the post query a third time and returns the content; five
  requests in all.
\<close>

theorem fetch_retries_again:
  "map_option (\<lambda>(r, tm, w). (r, accessToken tm, requests w))
     (fetchContentFromBetterMode (str ''p1'') stored twice_unauthorized)
   = Some ((str ''<p>hi</p>'', str ''T'', None), str ''fresh'', 5)"
  apply (subst fetchContentFromBetterMode.simps)
  apply (simp add: GetToken_def RefreshToken_def postTokenQuery_def postGetPost_def elapse_def
      Minute_def Hour_def stored_def twice_unauthorized_def str_def)
  apply (subst fetchContentFromBetterMode.simps)
  apply (simp add: GetToken_def RefreshToken_def postTokenQuery_def postGetPost_def elapse_def
      Minute_def Hour_def stored_def twice_unauthorized_def str_def)
  apply (subst fetchContentFromBetterMode.simps)
  apply (simp add: GetToken_def RefreshToken_def postTokenQuery_def postGetPost_def elapse_def
      Minute_def Hour_def stored_def twice_unauthorized_def str_def)
  done

section \<open>Properties of the HTTP gateway\<close>

lemma fetch_down:
  "fetchContentFromBetterMode (str ''p1'') stored upstream_down =
     Some (([], [], Some (str ''error sending request: connection refused'')),
           stored, elapse upstream_down)"
  by (subst fetchContentFromBetterMode.simps)
    (simp add: GetToken_def RefreshToken_def postTokenQuery_def postGetPost_def elapse_def
      Minute_def Hour_def stored_def upstream_down_def str_def)

lemma fetch_up:
  "fetchContentFromBetterMode (str ''p1'') stored upstream_up =
     Some (([0xD55C, 0xAE00], str ''Hi'', None), stored, elapse upstream_up)"
  by (subst fetchContentFromBetterMode.simps)
    (simp add: GetToken_def RefreshToken_def postTokenQuery_def postGetPost_def elapse_def
      Minute_def Hour_def Let_def stored_def upstream_up_def str_def)

lemma cleanupContent_hangul:
  "cleanupContent printable htmlReplacements [0xD55C, 0xAE00] = [0xD55C, 0xAE00]"
proof -
  have w: "wellformed [0xD55C, 0xAE00]" by (simp add: wellformed_def ValidRune_def)
  show ?thesis
    using cleanupContent_plain [OF w, of printable htmlReplacements]
    by (simp add: replaceEntities_def htmlReplacements_def str_def HasPrefix_def)
qed

lemma getContent_undecodable:
  "getContent printable order None tm w = Some (Error (str ''Invalid request body'') 400, tm, w)"
  by (simp add: getContent_def)

text \<open>
  C9 as stated fails: a body whose \<open>format\<close> is present and empty decodes to the request
  below; its format is neither \<open>html\<close> nor \<open>text\<close>, and the gateway does not answer 400
  but sends the post query and answers 200, as it does when \<open>format\<close> is absent.
\<close>

theorem getContent_empty_format:
  "post_id \<lparr>post_id = str ''p1'', format = []\<rparr> \<noteq> []
   \<and> format \<lparr>post_id = str ''p1'', format = []\<rparr> \<noteq> str ''html''
   \<and> format \<lparr>post_id = str ''p1'', format = []\<rparr> \<noteq> str ''text''
   \<and> getContent latin1_only htmlReplacements (Some \<lparr>post_id = str ''p1'', format = []\<rparr>)
       stored upstream_up =
       Some (JSON \<lparr>Content = [0xD55C, 0xAE00], Format = str ''html'', PostID = str ''p1'',
                   Title = str ''Hi'', CharCount = 6\<rparr>, stored, elapse upstream_up)
   \<and> requests (elapse upstream_up) = Suc (requests upstream_up)"
  using fetch_up
  by (simp add: getContent_def Let_def cleanupContent_hangul len_def RuneLen_def str_def)

text \<open>
  C9, amended: for every request body that decodes, if \<open>post_id\<close> is empty, or \<open>format\<close> is
  non-empty and is neither \<open>html\<close> nor \<open>text\<close>, the gateway answers 400 and leaves the
  token manager and the world as they are, whereas a fetch that returns has sent a request;
  a request whose \<open>format\<close> is absent or empty is served as one with \<open>format\<close> \<open>html\<close>, the
  content cleaned up and its tags kept; and an error of the fetch is answered with 500 and
  the message of that error.
\<close>

theorem getContent_validation:
  "(post_id req = [] \<or> (format req \<noteq> [] \<and> format req \<noteq> str ''html'' \<and> format req \<noteq> str ''text'')
      \<longrightarrow> (\<exists>message. getContent printable order (Some req) tm w = Some (Error message 400, tm, w)))
   \<and> (\<forall>result tm' w'. fetchContentFromBetterMode postID tm w = Some (result, tm', w')
        \<longrightarrow> requests w < requests w')
   \<and> getContent printable order (Some (req\<lparr>format := []\<rparr>)) tm w =
       getContent printable order (Some (req\<lparr>format := str ''html''\<rparr>)) tm w
   \<and> (\<forall>content title tm' w'.
        post_id req \<noteq> [] \<and> format req = []
        \<and> fetchContentFromBetterMode (post_id req) tm w = Some ((content, title, None), tm', w')
        \<longrightarrow> getContent printable order (Some req) tm w =
            Some (JSON \<lparr>Content = cleanupContent printable order content, Format = str ''html'',
                        PostID = post_id req, Title = title,
                        CharCount = len (cleanupContent printable order content)\<rparr>, tm', w'))
   \<and> (\<forall>content title err tm' w'.
        post_id req \<noteq> [] \<and> (format req = [] \<or> format req = str ''html'' \<or> format req = str ''text'')
        \<and> fetchContentFromBetterMode (post_id req) tm w = Some ((content, title, Some err), tm', w')
        \<longrightarrow> getContent printable order (Some req) tm w =
            Some (Error (str ''Error fetching content: '' @ err) 500, tm', w'))"
proof (intro conjI allI impI)
  assume "post_id req = [] \<or> (format req \<noteq> [] \<and> format req \<noteq> str ''html'' \<and> format req \<noteq> str ''text'')"
  then show "\<exists>message. getContent printable order (Some req) tm w = Some (Error message 400, tm, w)"
    by (auto simp: getContent_def)
next
  fix result tm' w'
  assume "fetchContentFromBetterMode postID tm w = Some (result, tm', w')"
  from fetch_sends_request [OF this] show "requests w < requests w'" by simp
next
  show "getContent printable order (Some (req\<lparr>format := []\<rparr>)) tm w =
       getContent printable order (Some (req\<lparr>format := str ''html''\<rparr>)) tm w"
    by (simp add: getContent_def str_def)
next
  fix content title tm' w'
  assume "post_id req \<noteq> [] \<and> format req = []
        \<and> fetchContentFromBetterMode (post_id req) tm w = Some ((content, title, None), tm', w')"
  then show "getContent printable order (Some req) tm w =
            Some (JSON \<lparr>Content = cleanupContent printable order content, Format = str ''html'',
                        PostID = post_id req, Title = title,
                        CharCount = len (cleanupContent printable order content)\<rparr>, tm', w')"
    by (simp add: getContent_def Let_def str_def)
next
  fix content title err tm' w'
  assume "post_id req \<noteq> [] \<and> (format req = [] \<or> format req = str ''html'' \<or> format req = str ''text'')
        \<and> fetchContentFromBetterMode (post_id req) tm w = Some ((content, title, Some err), tm', w')"
  then show "getContent printable order (Some req) tm w =
            Some (Error (str ''Error fetching content: '' @ err) 500, tm', w')"
    by (auto simp: getContent_def)
qed

theorem getContent_validation_witness:
  "getContent latin1_only htmlReplacements (Some \<lparr>post_id = [], format = str ''text''\<rparr>)
     stored upstream_up = Some (Error (str ''Post ID is required'') 400, stored, upstream_up)
   \<and> getContent latin1_only htmlReplacements (Some \<lparr>post_id = str ''p1'', format = str ''xml''\<rparr>)
     stored upstream_up =
       Some (Error (str ''Format must be 'html' or 'text'' @ [0x27]) 400, stored, upstream_up)
   \<and> requests upstream_up < requests (elapse upstream_up)
   \<and> getContent latin1_only htmlReplacements (Some \<lparr>post_id = str ''p1'', format = []\<rparr>)
     stored upstream_up =
       Some (JSON \<lparr>Content = [0xD55C, 0xAE00], Format = str ''html'', PostID = str ''p1'',
                   Title = str ''Hi'', CharCount = 6\<rparr>, stored, elapse upstream_up)
   \<and> getContent latin1_only htmlReplacements (Some \<lparr>post_id = str ''p1'', format = str ''html''\<rparr>)
     stored upstream_up =
       Some (JSON \<lparr>Content = [0xD55C, 0xAE00], Format = str ''html'', PostID = str ''p1'',
                   Title = str ''Hi'', CharCount = 6\<rparr>, stored, elapse upstream_up)
   \<and> getContent latin1_only htmlReplacements (Some \<lparr>post_id = str ''p1'', format = str ''text''\<rparr>)
     stored upstream_down =
       Some (Error (str ''Error fetching content: error sending request: connection refused'') 500,
             stored, elapse upstream_down)"
proof -
  let ?g = "getContent latin1_only htmlReplacements"
  let ?empty = "\<lparr>post_id = [], format = str ''text''\<rparr>"
  let ?xml = "\<lparr>post_id = str ''p1'', format = str ''xml''\<rparr>"
  let ?absent = "\<lparr>post_id = str ''p1'', format = []\<rparr>"
  let ?text = "\<lparr>post_id = str ''p1'', format = str ''text''\<rparr>"
  note v = getContent_validation [where printable = latin1_only and order = htmlReplacements
      and tm = stored and postID = "str ''p1''"]
  have "post_id ?empty = []" by simp
  with v [of ?empty upstream_up, THEN conjunct1]
  obtain m1 where "?g (Some ?empty) stored upstream_up = Some (Error m1 400, stored, upstream_up)"
    by blast
  then have 1: "?g (Some ?empty) stored upstream_up =
      Some (Error (str ''Post ID is required'') 400, stored, upstream_up)"
    by (simp add: getContent_def)
  have "format ?xml \<noteq> [] \<and> format ?xml \<noteq> str ''html'' \<and> format ?xml \<noteq> str ''text''"
    by (simp add: str_def)
  with v [of ?xml upstream_up, THEN conjunct1]
  obtain m2 where "?g (Some ?xml) stored upstream_up = Some (Error m2 400, stored, upstream_up)"
    by blast
  then have 2: "?g (Some ?xml) stored upstream_up =
      Some (Error (str ''Format must be 'html' or 'text'' @ [0x27]) 400, stored, upstream_up)"
    by (simp add: getContent_def str_def)
  have 3: "requests upstream_up < requests (elapse upstream_up)"
    using v [of ?absent upstream_up, THEN conjunct2, THEN conjunct1] fetch_up by blast
  have "post_id ?absent \<noteq> [] \<and> format ?absent = []
      \<and> fetchContentFromBetterMode (post_id ?absent) stored upstream_up =
          Some (([0xD55C, 0xAE00], str ''Hi'', None), stored, elapse upstream_up)"
    using fetch_up by (simp add: str_def)
  with v [of ?absent upstream_up, THEN conjunct2, THEN conjunct2, THEN conjunct2, THEN conjunct1]
  have "?g (Some ?absent) stored upstream_up =
      Some (JSON \<lparr>Content = cleanupContent latin1_only htmlReplacements [0xD55C, 0xAE00],
                  Format = str ''html'', PostID = post_id ?absent, Title = str ''Hi'',
                  CharCount = len (cleanupContent latin1_only htmlReplacements [0xD55C, 0xAE00])\<rparr>,
            stored, elapse upstream_up)"
    by blast
  then have 4: "?g (Some ?absent) stored upstream_up =
      Some (JSON \<lparr>Content = [0xD55C, 0xAE00], Format = str ''html'', PostID = str ''p1'',
                  Title = str ''Hi'', CharCount = 6\<rparr>, stored, elapse upstream_up)"
    by (simp add: cleanupContent_hangul len_def RuneLen_def)
  have "?g (Some (?absent\<lparr>format := []\<rparr>)) stored upstream_up =
      ?g (Some (?absent\<lparr>format := str ''html''\<rparr>)) stored upstream_up"
    using v [of ?absent upstream_up, THEN conjunct2, THEN conjunct2, THEN conjunct1] .
  with 4 have 5: "?g (Some \<lparr>post_id = str ''p1'', format = str ''html''\<rparr>) stored upstream_up =
      Some (JSON \<lparr>Content = [0xD55C, 0xAE00], Format = str ''html'', PostID = str ''p1'',
                  Title = str ''Hi'', CharCount = 6\<rparr>, stored, elapse upstream_up)"
    by simp
  have "post_id ?text \<noteq> []
      \<and> (format ?text = [] \<or> format ?text = str ''html'' \<or> format ?text = str ''text'')
      \<and> fetchContentFromBetterMode (post_id ?text) stored upstream_down =
          Some (([], [], Some (str ''error sending request: connection refused'')),
                stored, elapse upstream_down)"
    using fetch_down by (simp add: str_def)
  with v [of ?text upstream_down, THEN conjunct2, THEN conjunct2, THEN conjunct2, THEN conjunct2]
  have "?g (Some ?text) stored upstream_down =
      Some (Error (str ''Error fetching content: ''
                   @ str ''error sending request: connection refused'') 500,
            stored, elapse upstream_down)"
    by blast
  then have 6: "?g (Some ?text) stored upstream_down =
      Some (Error (str ''Error fetching content: error sending request: connection refused'') 500,
            stored, elapse upstream_down)"
    by (simp add: str_def)
  from 1 2 3 4 5 6 show ?thesis by blast
qed

text \<open>What \<open>getContent\<close> counts is the bytes of the content.\<close>

lemma getContent_CharCount:
  "getContent printable order body tm w = Some (JSON resp, tm', w') \<Longrightarrow>
   CharCount resp = len (Content resp)"
  by (auto simp: getContent_def Let_def split: option.splits if_splits prod.splits)

text \<open>
  C7: the claim is that \<open>char_count\<close> is the number of characters of the normalized
  content, and the API documentation of the repository calls the field "the character
  count of the content". The handler does not do this: \<open>len\<close> of a Go string is its length
  in bytes, and for a content of two Hangul syllables the response holds 6.
\<close>

theorem getContent_counts_bytes:
  "getContent printable htmlReplacements (Some \<lparr>post_id = str ''p1'', format = str ''html''\<rparr>)
     stored upstream_up =
       Some (JSON \<lparr>Content = [0xD55C, 0xAE00], Format = str ''html'', PostID = str ''p1'',
                   Title = str ''Hi'', CharCount = 6\<rparr>, stored, elapse upstream_up)
   \<and> RuneCountInString [0xD55C, 0xAE00] = 2"
  using fetch_up
  by (simp add: getContent_def Let_def cleanupContent_hangul len_def RuneLen_def
      RuneCountInString_def str_def)

end
